theory Spec2Isabelle
  imports Complex_Main "HOL-Library.Sublist"
begin

section \<open>Emotion utilities (frontend/src/utils/emotions.js)\<close>

text \<open>
  The three helpers look a code up in an object literal and fall back with \<open>||\<close>.
  A JavaScript object literal inherits from \<open>Object.prototype\<close>, so the bracket
  access \<open>emotionMap[emotionCode]\<close> first looks at the literal's own keys and then at
  the inherited ones; what comes back is then not always a string. The model keeps the
  three kinds of value that can come back. Strings are the bytes of the source file
  (UTF-8), so an emoji is four characters.
\<close>

datatype js_value = JString string | JFunction string | JObject string

text \<open>The properties every plain object inherits (ECMAScript, with Annex B).\<close>

definition object_prototype :: "string \<Rightarrow> js_value option" where
  "object_prototype key =
     (if key = ''constructor'' then Some (JFunction ''Object'')
      else if key = ''__proto__'' then Some (JObject ''Object.prototype'')
      else if key \<in> set [''hasOwnProperty'', ''isPrototypeOf'', ''propertyIsEnumerable'',
                           ''toLocaleString'', ''toString'', ''valueOf'',
                           ''__defineGetter__'', ''__defineSetter__'',
                           ''__lookupGetter__'', ''__lookupSetter__'']
        then Some (JFunction key)
      else None)"

text \<open>\<open>obj[key]\<close> on an object literal; \<open>None\<close> is \<open>undefined\<close>.\<close>

definition get_property :: "(string \<times> string) list \<Rightarrow> string \<Rightarrow> js_value option" where
  "get_property literal key =
     (case map_of literal key of
        Some v \<Rightarrow> Some (JString v)
      | None \<Rightarrow> object_prototype key)"

fun truthy :: "js_value \<Rightarrow> bool" where
  "truthy (JString s) = (s \<noteq> [])"
| "truthy (JFunction f) = True"
| "truthy (JObject ob) = True"

text \<open>\<open>a || b\<close>: the left operand when it is truthy, else the right one.\<close>

definition js_or :: "js_value option \<Rightarrow> js_value \<Rightarrow> js_value" where
  "js_or a b = (case a of None \<Rightarrow> b | Some v \<Rightarrow> if truthy v then v else b)"

definition emotionMap :: "(string \<times> string) list" where
  "emotionMap =
     [(''ANG'', ''Angry''), (''CAL'', ''Calm''), (''DIS'', ''Disgusted''),
      (''FEA'', ''Fearful''), (''HAP'', ''Happy''), (''NEU'', ''Neutral''),
      (''SAD'', ''Sad''), (''SUR'', ''Surprised'')]"

definition getEmotionDisplayName :: "string \<Rightarrow> js_value" where
  "getEmotionDisplayName emotionCode =
     js_or (get_property emotionMap emotionCode) (JString emotionCode)"

definition neutral_emoji :: string where
  "neutral_emoji = [CHR 0xF0, CHR 0x9F, CHR 0x98, CHR 0x90]"

definition emojiMap :: "(string \<times> string) list" where
  "emojiMap =
     [(''ANG'', [CHR 0xF0, CHR 0x9F, CHR 0x98, CHR 0xA0]),
      (''CAL'', [CHR 0xF0, CHR 0x9F, CHR 0x98, CHR 0x8C]),
      (''DIS'', [CHR 0xF0, CHR 0x9F, CHR 0xA4, CHR 0xA2]),
      (''FEA'', [CHR 0xF0, CHR 0x9F, CHR 0x98, CHR 0xA8]),
      (''HAP'', [CHR 0xF0, CHR 0x9F, CHR 0x98, CHR 0x8A]),
      (''NEU'', [CHR 0xF0, CHR 0x9F, CHR 0x98, CHR 0x90]),
      (''SAD'', [CHR 0xF0, CHR 0x9F, CHR 0x98, CHR 0xA2]),
      (''SUR'', [CHR 0xF0, CHR 0x9F, CHR 0x98, CHR 0xB2])]"

definition getEmotionEmoji :: "string \<Rightarrow> js_value" where
  "getEmotionEmoji emotionCode =
     js_or (get_property emojiMap emotionCode) (JString neutral_emoji)"

text \<open>The eight codes of the tables.\<close>

definition known_codes :: "string list" where
  "known_codes = [''ANG'', ''CAL'', ''DIS'', ''FEA'', ''HAP'', ''NEU'', ''SAD'', ''SUR'']"


section \<open>Progress bar of the AudioVisualizer (frontend/src/components/AudioComponents.jsx)\<close>

text \<open>
  \<open>const progress = (recordingTime / maxTime) * 100\<close> and the bar's width is
  \<open>Math.min(progress, 100)\<close> percent. JavaScript numbers are idealised as reals; a
  division by \<open>maxTime = 0\<close> gives \<open>NaN\<close> or an infinity there, which is no real
  number: \<open>None\<close>.
\<close>

definition progress :: "real \<Rightarrow> real \<Rightarrow> real option" where
  "progress recordingTime maxTime =
     (if maxTime = 0 then None else Some ((recordingTime / maxTime) * 100))"

definition bar_width :: "real \<Rightarrow> real \<Rightarrow> real option" where
  "bar_width recordingTime maxTime = map_option (\<lambda>p. min p 100) (progress recordingTime maxTime)"

text \<open>
  The specification's wording, for comparison: the progress indicator is
  \<open>elapsed / deadline\<close> clamped to the interval from 0 to 1.
\<close>

definition spec_progress :: "real \<Rightarrow> real \<Rightarrow> real" where
  "spec_progress elapsed deadline = max 0 (min 1 (elapsed / deadline))"


section \<open>File upload hook (useFileUpload)\<close>

text \<open>
  A browser \<open>File\<close> with the fields the hook reads, and the \<open>preview\<close> field the
  hook adds to an accepted image (an object URL, numbered in order of creation).
\<close>

record upload_file =
  file_name :: string
  file_type :: string
  file_size :: nat
  file_preview :: "nat option"

datatype toast = ToastSuccess string | ToastError string

text \<open>Decimal digits of a natural number, as a template literal prints it.\<close>

function string_of_nat :: "nat \<Rightarrow> string" where
  "string_of_nat n =
     (if n < 10 then [''0123456789'' ! n]
      else string_of_nat (n div 10) @ [''0123456789'' ! (n mod 10)])"
  by pat_completeness auto
termination
  by (relation "measure (\<lambda>n. n)") auto

declare string_of_nat.simps [simp del]

text \<open>
  \<open>(num / den).toFixed(1)\<close> for natural numbers: the quotient rounded to one decimal
  place, a tie going up. With \<open>den = 1024 * 1024\<close>, a power of two, the quotient of
  the source is exact in double precision for every \<open>num\<close> below \<open>2^53\<close>.
\<close>

definition toFixed1 :: "nat \<Rightarrow> nat \<Rightarrow> string" where
  "toFixed1 num den =
     (let tenths = (2 * 10 * num + den) div (2 * den)
      in string_of_nat (tenths div 10) @ ''.'' @ string_of_nat (tenths mod 10))"

text \<open>
  The hook's options \<open>accept\<close> and \<open>maxSize\<close> are parameters of \<open>validateFile\<close>,
  which closes over them; \<open>startsWith\<close> is \<open>prefix\<close>.
\<close>

definition validateFile :: "string \<Rightarrow> nat \<Rightarrow> upload_file \<Rightarrow> string list" where
  "validateFile accept maxSize file =
     (if accept = ''audio/*'' \<and> \<not> prefix ''audio/'' (file_type file)
        then [file_name file @ '': Invalid file type. Please upload an audio file.'']
      else if accept = ''image/*'' \<and> \<not> prefix ''image/'' (file_type file)
        then [file_name file @ '': Invalid file type. Please upload an image file.'']
      else [])
     @
     (if file_size file > maxSize
        then [file_name file @ '': File too large. Maximum size is ''
                @ toFixed1 maxSize (1024 * 1024) @ ''MB.'']
      else [])"

text \<open>The file passes the type check: neither of the two type branches applies.\<close>

definition type_accepted :: "string \<Rightarrow> upload_file \<Rightarrow> bool" where
  "type_accepted accept file =
     (\<not> (accept = ''audio/*'' \<and> \<not> prefix ''audio/'' (file_type file)) \<and>
      \<not> (accept = ''image/*'' \<and> \<not> prefix ''image/'' (file_type file)))"

record upload_hook =
  files :: "upload_file list"
  upload_toasts :: "toast list"
  object_urls :: nat

definition upload_initial :: upload_hook where
  "upload_initial = \<lparr>files = [], upload_toasts = [], object_urls = 0\<rparr>"

text \<open>
  The body of \<open>fileArray.forEach\<close> in \<open>addFiles\<close>, on the triple of
  \<open>validFiles\<close>, \<open>allErrors\<close> and the number of object URLs created so far.
\<close>

definition addFiles_each ::
  "string \<Rightarrow> nat \<Rightarrow> upload_file \<Rightarrow> upload_file list \<times> string list \<times> nat
     \<Rightarrow> upload_file list \<times> string list \<times> nat" where
  "addFiles_each accept maxSize file acc =
     (case acc of (validFiles, allErrors, urls) \<Rightarrow>
        (let errors = validateFile accept maxSize file in
         if length errors > 0 then (validFiles, allErrors @ errors, urls)
         else if prefix ''image/'' (file_type file)
           then (validFiles @ [file\<lparr>file_preview := Some urls\<rparr>], allErrors, Suc urls)
         else (validFiles @ [file], allErrors, urls)))"

text \<open>
  \<open>addFiles\<close>: the errors are shown as toasts; the accepted files replace the list, or
  extend it when \<open>allowMultiple\<close> is set, and only when there is at least one.
\<close>

definition addFiles ::
  "bool \<Rightarrow> string \<Rightarrow> nat \<Rightarrow> upload_file list \<Rightarrow> upload_hook \<Rightarrow> upload_hook" where
  "addFiles allowMultiple accept maxSize newFiles s =
     (case fold (addFiles_each accept maxSize) newFiles ([], [], object_urls s) of
        (validFiles, allErrors, urls) \<Rightarrow>
          (let s1 = s\<lparr>upload_toasts := upload_toasts s @ map ToastError allErrors,
                      object_urls := urls\<rparr>
           in if length validFiles > 0
              then s1\<lparr>files := (if allowMultiple then files s1 @ validFiles else validFiles),
                      upload_toasts := upload_toasts s1 @
                        [ToastSuccess (string_of_nat (length validFiles) @ '' file''
                           @ (if length validFiles > 1 then ''s'' else [])
                           @ '' added successfully'')]\<rparr>
              else s1))"

text \<open>The error messages shown so far, and those that start with a given file name.\<close>

fun toast_error :: "toast \<Rightarrow> string list" where
  "toast_error (ToastError m) = [m]"
| "toast_error (ToastSuccess m) = []"

definition error_messages :: "upload_hook \<Rightarrow> string list" where
  "error_messages s = concat (map toast_error (upload_toasts s))"

definition naming :: "string \<Rightarrow> string list \<Rightarrow> string list" where
  "naming nm msgs = filter (prefix nm) msgs"


text \<open>Files for the examples below, with the options of the audio page.\<close>

definition image_too_large :: upload_file where
  "image_too_large =
     \<lparr>file_name = ''a.png'', file_type = ''image/png'', file_size = 11000000,
      file_preview = None\<rparr>"

definition audio_too_large :: upload_file where
  "audio_too_large =
     \<lparr>file_name = ''big.wav'', file_type = ''audio/wav'', file_size = 11000000,
      file_preview = None\<rparr>"

definition image_small :: upload_file where
  "image_small =
     \<lparr>file_name = ''b.png'', file_type = ''image/png'', file_size = 1000,
      file_preview = None\<rparr>"

definition audio_small :: upload_file where
  "audio_small =
     \<lparr>file_name = ''b.wav'', file_type = ''audio/wav'', file_size = 1000,
      file_preview = None\<rparr>"


section \<open>Audio recorder hook (useAudioRecorder)\<close>

subsection \<open>The browser objects the hook holds\<close>

text \<open>
  A \<open>Blob\<close> is its bytes and its MIME type; \<open>new Blob(parts, {type})\<close> concatenates
  the parts.
\<close>

record blob =
  blob_bytes :: "nat list"
  blob_type :: string

definition blob_size :: "blob \<Rightarrow> nat" where
  "blob_size b = length (blob_bytes b)"

definition new_blob :: "blob list \<Rightarrow> string \<Rightarrow> blob" where
  "new_blob parts ty = \<lparr>blob_bytes = concat (map blob_bytes parts), blob_type = ty\<rparr>"

text \<open>
  A \<open>MediaRecorder\<close> with the stream it was built on: its \<open>state\<close>, one flag per
  track of the stream (\<open>True\<close> while the track is live), and whether a \<open>stop\<close> event
  is queued. \<open>start\<close> is only ever called on a recorder just built (inactive), and
  \<open>stop\<close> only behind the check that the state is \<open>'recording'\<close>; \<open>stop\<close> makes the
  recorder inactive at once and queues the \<open>stop\<close> event, which the browser delivers
  later, after the last \<open>dataavailable\<close>.
\<close>

datatype recorder_state = RecInactive | RecRecording | RecPaused

record media_recorder =
  mr_state :: recorder_state
  mr_tracks :: "bool list"
  mr_stop_queued :: bool

definition mr_start :: "media_recorder \<Rightarrow> media_recorder" where
  "mr_start r = r\<lparr>mr_state := RecRecording\<rparr>"

definition mr_stop :: "media_recorder \<Rightarrow> media_recorder" where
  "mr_stop r = r\<lparr>mr_state := RecInactive, mr_stop_queued := True\<rparr>"

text \<open>
  The \<open>audio\<close> element behind \<open>audioPlayerRef\<close>; \<open>listening\<close> says whether the
  hook's \<open>ended\<close> and \<open>pause\<close> handlers are registered on it.
\<close>

record audio_element =
  paused :: bool
  currentTime :: real
  listening :: bool

text \<open>
  What \<open>await navigator.mediaDevices.getUserMedia(...)\<close> followed by
  \<open>new MediaRecorder(...)\<close> comes to: a stream with so many live tracks, or an
  exception (its name), which the \<open>catch\<close> of \<open>initializeRecorder\<close> receives.
\<close>

datatype mic_result = MicStream nat | MicFailure string

subsection \<open>The state of the hook\<close>

text \<open>
  The six \<open>useState\<close> cells, the four refs, and the part of the browser the hook acts
  on: the recorders created so far (a store, \<open>mediaRecorderRef\<close> holds an address), the
  running \<open>setInterval\<close> timers, the object URLs, the toasts shown and the number of
  \<open>getUserMedia\<close> calls. Each running timer is kept with the value of \<open>isRecording\<close>
  that the callbacks of its render closed over: the timer callback calls the
  \<open>stopRecording\<close> of the render in which \<open>startRecording\<close> was created, and both
  are memoised on \<open>[isRecording]\<close>, so they see the same value.
\<close>

record recorder_hook =
  isRecording :: bool
  recordingTime :: real
  audioBlob :: "blob option"
  audioUrl :: "nat option"
  isPlaying :: bool
  error :: "string option"
  mediaRecorderRef :: "nat option"
  audioPlayerRef :: "audio_element option"
  timerRef :: "nat option"
  chunksRef :: "blob list"
  recorders :: "nat \<rightharpoonup> media_recorder"
  next_recorder :: nat
  intervals :: "(nat \<times> bool) list"
  next_interval :: nat
  next_url :: nat
  revoked_urls :: "nat list"
  toasts :: "toast list"
  getUserMedia_calls :: nat

definition hook_initial :: recorder_hook where
  "hook_initial =
     \<lparr>isRecording = False, recordingTime = 0, audioBlob = None, audioUrl = None,
      isPlaying = False, error = None,
      mediaRecorderRef = None, audioPlayerRef = None, timerRef = None, chunksRef = [],
      recorders = Map.empty, next_recorder = 0, intervals = [], next_interval = 1,
      next_url = 0, revoked_urls = [], toasts = [], getUserMedia_calls = 0\<rparr>"

text \<open>\<open>clearInterval(id)\<close>; with \<open>null\<close> it does nothing. The ref keeps the id.\<close>

definition clearInterval :: "nat option \<Rightarrow> recorder_hook \<Rightarrow> recorder_hook" where
  "clearInterval ident s =
     (case ident of
        None \<Rightarrow> s
      | Some i \<Rightarrow> s\<lparr>intervals := filter (\<lambda>e. fst e \<noteq> i) (intervals s)\<rparr>)"

text \<open>
  \<open>if (mediaRecorderRef.current.state === 'recording') mediaRecorderRef.current.stop()\<close>,
  with the ref known to be set.
\<close>

definition stop_if_recording :: "recorder_hook \<Rightarrow> recorder_hook" where
  "stop_if_recording s =
     (case mediaRecorderRef s of
        None \<Rightarrow> s
      | Some a \<Rightarrow>
          (case recorders s a of
             None \<Rightarrow> s
           | Some r \<Rightarrow>
               if mr_state r = RecRecording
               then s\<lparr>recorders := (recorders s)(a \<mapsto> mr_stop r)\<rparr>
               else s))"

text \<open>\<open>mediaRecorderRef.current.start(100)\<close>.\<close>

definition start_current :: "recorder_hook \<Rightarrow> recorder_hook" where
  "start_current s =
     (case mediaRecorderRef s of
        None \<Rightarrow> s
      | Some a \<Rightarrow>
          (case recorders s a of
             None \<Rightarrow> s
           | Some r \<Rightarrow> s\<lparr>recorders := (recorders s)(a \<mapsto> mr_start r)\<rparr>))"

subsection \<open>The callbacks\<close>

text \<open>
  \<open>initializeRecorder\<close>, given what the acquisition comes to. It returns its boolean
  and the new state.
\<close>

definition initializeRecorder :: "mic_result \<Rightarrow> recorder_hook \<Rightarrow> bool \<times> recorder_hook" where
  "initializeRecorder res s =
     (let s0 = s\<lparr>getUserMedia_calls := Suc (getUserMedia_calls s)\<rparr> in
      case res of
        MicStream n \<Rightarrow>
          (True,
           s0\<lparr>recorders := (recorders s0)(next_recorder s0 \<mapsto>
                  \<lparr>mr_state = RecInactive, mr_tracks = replicate n True,
                   mr_stop_queued = False\<rparr>),
              mediaRecorderRef := Some (next_recorder s0),
              next_recorder := Suc (next_recorder s0),
              error := None\<rparr>)
      | MicFailure e \<Rightarrow>
          (False,
           s0\<lparr>error := Some ''Microphone access denied or not available'',
              toasts := toasts s0 @
                [ToastError ''Please allow microphone access to record audio'']\<rparr>))"

text \<open>
  \<open>stopRecording\<close>. Its first argument is the \<open>isRecording\<close> of its closure: the
  value of the render that created the callback, not the current state.
\<close>

definition stopRecording :: "bool \<Rightarrow> recorder_hook \<Rightarrow> recorder_hook" where
  "stopRecording isRecording_c s =
     (if \<not> isRecording_c \<or> mediaRecorderRef s = None then s
      else
        (let s1 = s\<lparr>isRecording := False\<rparr>;
             s2 = clearInterval (timerRef s1) s1;
             s3 = stop_if_recording s2
         in s3\<lparr>toasts := toasts s3 @ [ToastSuccess ''Recording completed!'']\<rparr>))"

text \<open>
  The callback given to \<open>setInterval\<close>: \<open>setRecordingTime\<close> with the updater
  that adds a tenth of a second, and at three seconds calls the \<open>stopRecording\<close> of
  its closure and stores exactly 3. JavaScript numbers are idealised as reals.
\<close>

definition timerCallback :: "bool \<Rightarrow> recorder_hook \<Rightarrow> recorder_hook" where
  "timerCallback isRecording_c s =
     (let prev = recordingTime s;
          newTime = prev + 1 / 10
      in if newTime \<ge> 3
         then (stopRecording isRecording_c s)\<lparr>recordingTime := 3\<rparr>
         else s\<lparr>recordingTime := newTime\<rparr>)"

text \<open>
  \<open>startRecording\<close>, with the \<open>isRecording\<close> of its closure and what the
  acquisition comes to. Nothing of the state is read before the \<open>await\<close>, so the
  body runs as one step when the acquisition settles.
\<close>

definition startRecording :: "bool \<Rightarrow> mic_result \<Rightarrow> recorder_hook \<Rightarrow> recorder_hook" where
  "startRecording isRecording_c res s =
     (if isRecording_c then s
      else
        (case initializeRecorder res s of
           (initialized, s1) \<Rightarrow>
             if \<not> initialized then s1
             else
               (let s2 = s1\<lparr>recordingTime := 0, audioBlob := None, audioUrl := None,
                            isRecording := True\<rparr>;
                    s3 = start_current s2;
                    s4 = s3\<lparr>timerRef := Some (next_interval s3),
                            intervals := intervals s3 @ [(next_interval s3, isRecording_c)],
                            next_interval := Suc (next_interval s3)\<rparr>
                in s4\<lparr>toasts := toasts s4 @ [ToastSuccess ''Recording started!'']\<rparr>)))"

text \<open>A method call or assignment on \<open>audioPlayerRef.current\<close>, when the ref is set.\<close>

definition on_player :: "(audio_element \<Rightarrow> audio_element) \<Rightarrow> recorder_hook \<Rightarrow> recorder_hook" where
  "on_player f s =
     (case audioPlayerRef s of
        None \<Rightarrow> s
      | Some p \<Rightarrow> s\<lparr>audioPlayerRef := Some (f p)\<rparr>)"

text \<open>
  \<open>playAudio\<close>, with the \<open>audioUrl\<close> and \<open>isPlaying\<close> of its closure.
\<close>

definition playAudio :: "nat option \<Rightarrow> bool \<Rightarrow> recorder_hook \<Rightarrow> recorder_hook" where
  "playAudio audioUrl_c isPlaying_c s =
     (if audioUrl_c = None \<or> audioPlayerRef s = None then s
      else if isPlaying_c
        then (on_player (\<lambda>p. p\<lparr>paused := True\<rparr>) s)\<lparr>isPlaying := False\<rparr>
      else (on_player (\<lambda>p. p\<lparr>paused := False\<rparr>) s)\<lparr>isPlaying := True\<rparr>)"

text \<open>
  \<open>resetRecording\<close>, memoised on \<open>[isRecording, stopRecording]\<close>: it and the
  \<open>stopRecording\<close> it calls close over the same \<open>isRecording\<close>.
\<close>

definition resetRecording :: "bool \<Rightarrow> recorder_hook \<Rightarrow> recorder_hook" where
  "resetRecording isRecording_c s =
     (let s1 = (if isRecording_c then stopRecording isRecording_c s else s);
          s2 = s1\<lparr>recordingTime := 0, audioBlob := None, audioUrl := None,
                  isPlaying := False, error := None\<rparr>
      in on_player (\<lambda>p. p\<lparr>paused := True, currentTime := 0\<rparr>) s2)"

subsection \<open>The event handlers and effects\<close>

text \<open>\<open>mediaRecorder.ondataavailable\<close>, with the event's data.\<close>

definition ondataavailable :: "blob \<Rightarrow> recorder_hook \<Rightarrow> recorder_hook" where
  "ondataavailable data s =
     (if blob_size data > 0 then s\<lparr>chunksRef := chunksRef s @ [data]\<rparr> else s)"

text \<open>
  \<open>mediaRecorder.onstop\<close> of the recorder at address \<open>a\<close>: the handler closes over
  that recorder's stream.
\<close>

definition onstop :: "nat \<Rightarrow> recorder_hook \<Rightarrow> recorder_hook" where
  "onstop a s =
     (let blob = new_blob (chunksRef s) ''audio/webm'';
          s1 = s\<lparr>audioBlob := Some blob, audioUrl := Some (next_url s),
                 next_url := Suc (next_url s), chunksRef := []\<rparr>
      in s1\<lparr>recorders := (recorders s1)(a := map_option
               (\<lambda>r. r\<lparr>mr_tracks := map (\<lambda>live. False) (mr_tracks r)\<rparr>) (recorders s1 a))\<rparr>)"

text \<open>The browser delivers a queued \<open>stop\<close> event to that handler.\<close>

definition deliver_stop :: "nat \<Rightarrow> recorder_hook \<Rightarrow> recorder_hook" where
  "deliver_stop a s =
     (case recorders s a of
        None \<Rightarrow> s
      | Some r \<Rightarrow>
          if mr_stop_queued r
          then onstop a (s\<lparr>recorders := (recorders s)(a \<mapsto> r\<lparr>mr_stop_queued := False\<rparr>)\<rparr>)
          else s)"

text \<open>\<open>handleEnded\<close> and \<open>handlePause\<close>.\<close>

definition handleEnded :: "recorder_hook \<Rightarrow> recorder_hook" where
  "handleEnded s = s\<lparr>isPlaying := False\<rparr>"

definition handlePause :: "recorder_hook \<Rightarrow> recorder_hook" where
  "handlePause s = s\<lparr>isPlaying := False\<rparr>"

text \<open>
  The player reaches the end of the sample: the element pauses itself and fires
  \<open>ended\<close>, which reaches \<open>handleEnded\<close> when the handlers are registered. Likewise
  for a pause from outside the hook (the native controls).
\<close>

definition player_ended :: "recorder_hook \<Rightarrow> recorder_hook" where
  "player_ended s =
     (case audioPlayerRef s of
        None \<Rightarrow> s
      | Some p \<Rightarrow>
          (let s1 = s\<lparr>audioPlayerRef := Some (p\<lparr>paused := True\<rparr>)\<rparr>
           in if listening p then handleEnded s1 else s1))"

definition player_paused :: "recorder_hook \<Rightarrow> recorder_hook" where
  "player_paused s =
     (case audioPlayerRef s of
        None \<Rightarrow> s
      | Some p \<Rightarrow>
          (let s1 = s\<lparr>audioPlayerRef := Some (p\<lparr>paused := True\<rparr>)\<rparr>
           in if listening p then handlePause s1 else s1))"

text \<open>
  The effect on \<open>[audioUrl]\<close> that registers the two handlers on the element of the
  ref, and its cleanup, which removes them.
\<close>

definition handlers_effect :: "recorder_hook \<Rightarrow> recorder_hook" where
  "handlers_effect s =
     (case audioPlayerRef s of
        None \<Rightarrow> s
      | Some p \<Rightarrow> s\<lparr>audioPlayerRef := Some (p\<lparr>listening := True\<rparr>)\<rparr>)"

definition handlers_cleanup :: "recorder_hook \<Rightarrow> recorder_hook" where
  "handlers_cleanup s =
     (case audioPlayerRef s of
        None \<Rightarrow> s
      | Some p \<Rightarrow> s\<lparr>audioPlayerRef := Some (p\<lparr>listening := False\<rparr>)\<rparr>)"

text \<open>
  The cleanup of the second effect on \<open>[audioUrl]\<close>, with the \<open>audioUrl\<close> of its
  closure. Timer ids are positive, so \<open>if (timerRef.current)\<close> asks whether the ref
  is set.
\<close>

definition teardown :: "nat option \<Rightarrow> recorder_hook \<Rightarrow> recorder_hook" where
  "teardown audioUrl_c s =
     (let s1 = (if timerRef s \<noteq> None then clearInterval (timerRef s) s else s);
          s2 = stop_if_recording s1
      in case audioUrl_c of
           None \<Rightarrow> s2
         | Some u \<Rightarrow> s2\<lparr>revoked_urls := revoked_urls s2 @ [u]\<rparr>)"

text \<open>React sets the ref when the page mounts its \<open>audio\<close> element and clears it on unmount.\<close>

definition mount_player :: "recorder_hook \<Rightarrow> recorder_hook" where
  "mount_player s =
     s\<lparr>audioPlayerRef := Some \<lparr>paused = True, currentTime = 0, listening = False\<rparr>\<rparr>"

definition unmount_player :: "recorder_hook \<Rightarrow> recorder_hook" where
  "unmount_player s = s\<lparr>audioPlayerRef := None\<rparr>"

subsection \<open>Runs of the hook\<close>

text \<open>
  One tick of the timer with the given id, if it is still running: its callback runs
  with the closure value the timer was created with.
\<close>

definition fire :: "nat \<Rightarrow> recorder_hook \<Rightarrow> recorder_hook" where
  "fire ident s =
     (case map_of (intervals s) ident of
        None \<Rightarrow> s
      | Some c \<Rightarrow> timerCallback c s)"

text \<open>
  The states the hook can be in. The page calls \<open>stopRecording\<close>,
  \<open>resetRecording\<close> and \<open>playAudio\<close> of the latest render, whose closures hold the
  current state. \<open>startRecording\<close> checks the \<open>isRecording\<close> of its closure when it
  is called and runs its body when the acquisition settles, which can be any time
  later, so its closure value is free. The cleanup of an effect runs with the
  \<open>audioUrl\<close> of an earlier render.
\<close>

inductive reachable :: "recorder_hook \<Rightarrow> bool" where
  r_init: "reachable hook_initial"
| r_start: "reachable s \<Longrightarrow> reachable (startRecording c res s)"
| r_stop: "reachable s \<Longrightarrow> reachable (stopRecording (isRecording s) s)"
| r_reset: "reachable s \<Longrightarrow> reachable (resetRecording (isRecording s) s)"
| r_play: "reachable s \<Longrightarrow> reachable (playAudio (audioUrl s) (isPlaying s) s)"
| r_tick: "reachable s \<Longrightarrow> reachable (fire ident s)"
| r_data: "reachable s \<Longrightarrow> reachable (ondataavailable data s)"
| r_stopped: "reachable s \<Longrightarrow> reachable (deliver_stop a s)"
| r_ended: "reachable s \<Longrightarrow> reachable (player_ended s)"
| r_paused: "reachable s \<Longrightarrow> reachable (player_paused s)"
| r_effect: "reachable s \<Longrightarrow> reachable (handlers_effect s)"
| r_cleanup: "reachable s \<Longrightarrow> reachable (handlers_cleanup s)"
| r_teardown: "reachable s \<Longrightarrow> reachable (teardown u s)"
| r_mount: "reachable s \<Longrightarrow> reachable (mount_player s)"
| r_unmount: "reachable s \<Longrightarrow> reachable (unmount_player s)"

text \<open>
  The session states of the specification, read off the hook's state: the hook has
  no state field of its own. (\<open>Requesting\<close> is the time the acquisition is pending,
  during which the hook's state does not change.)
\<close>

datatype session = Idle | Recording | Stopped | Error

definition session_state :: "recorder_hook \<Rightarrow> session" where
  "session_state s =
     (if isRecording s then Recording
      else if error s \<noteq> None then Error
      else if audioBlob s \<noteq> None then Stopped
      else Idle)"


subsection \<open>Invariants and example runs\<close>

text \<open>A recording in progress has its recorder in the ref.\<close>

definition recorder_present :: "recorder_hook \<Rightarrow> bool" where
  "recorder_present s = (isRecording s \<longrightarrow> mediaRecorderRef s \<noteq> None)"

text \<open>Every running timer was created by a closure whose \<open>isRecording\<close> is false.\<close>

definition timers_stale :: "recorder_hook \<Rightarrow> bool" where
  "timers_stale s = list_all (\<lambda>e. \<not> snd e) (intervals s)"

text \<open>
  The first recording on a fresh hook, with a stream of \<open>k\<close> tracks; the same after
  twelve ticks (1.2 seconds); and after that a manual stop, the recorder's \<open>stop\<close>
  event, and the page's \<open>audio\<close> element mounted with the handlers registered.
  Then two more: the short recording with one chunk buffered, and the finished one after
  the page has unmounted its \<open>audio\<close> element and mounted a new one, as it does
  when the user leaves the recording tab and comes back; \<open>audioUrl\<close> is the same
  before and after, so the effect on \<open>[audioUrl]\<close> does not run again.
\<close>

definition first_recording :: "nat \<Rightarrow> recorder_hook" where
  "first_recording k = startRecording False (MicStream k) hook_initial"

definition short_recording :: recorder_hook where
  "short_recording = (fire 1 ^^ 12) (first_recording 1)"

definition finished_recording :: recorder_hook where
  "finished_recording =
     handlers_effect (mount_player
       (deliver_stop 0 (stopRecording True short_recording)))"

definition recording_with_chunk :: recorder_hook where
  "recording_with_chunk =
     ondataavailable \<lparr>blob_bytes = [1, 2, 3], blob_type = ''audio/webm''\<rparr> short_recording"

definition remounted_player :: recorder_hook where
  "remounted_player = mount_player (unmount_player finished_recording)"


section \<open>Properties of the emotion utilities\<close>

lemma get_property_known:
  "get_property emotionMap ''HAP'' = Some (JString ''Happy'')"
  by (simp add: get_property_def emotionMap_def)

lemma getEmotionDisplayName_known:
  "map getEmotionDisplayName known_codes =
     map JString [''Angry'', ''Calm'', ''Disgusted'', ''Fearful'', ''Happy'', ''Neutral'',
                  ''Sad'', ''Surprised'']"
  by (simp add: known_codes_def getEmotionDisplayName_def get_property_def emotionMap_def
      js_or_def)

lemma getEmotionDisplayName_fallback:
  assumes "emotionCode \<notin> set known_codes" and "object_prototype emotionCode = None"
  shows "getEmotionDisplayName emotionCode = JString emotionCode"
  using assms
  by (simp add: known_codes_def getEmotionDisplayName_def get_property_def emotionMap_def
      js_or_def)

lemma getEmotionEmoji_fallback:
  assumes "emotionCode \<notin> set known_codes" and "object_prototype emotionCode = None"
  shows "getEmotionEmoji emotionCode = JString neutral_emoji"
  using assms
  by (simp add: known_codes_def getEmotionEmoji_def get_property_def emojiMap_def js_or_def)

text \<open>
  C10. The claim: \<open>getEmotionDisplayName\<close> returns the display name for the eight
  known codes and the input string itself for every other string, and
  \<open>getEmotionEmoji\<close> returns the neutral emoji for unknown codes. On the code this
  fails for a string that names an inherited property: for \<open>'constructor'\<close> the lookup
  finds \<open>Object.prototype.constructor\<close>, which is truthy, so both helpers return the
  function \<open>Object\<close> and neither the input string nor the neutral emoji.
\<close>

theorem getEmotionDisplayName_constructor:
  "getEmotionDisplayName ''constructor'' = JFunction ''Object''
   \<and> getEmotionDisplayName ''constructor'' \<noteq> JString ''constructor''
   \<and> getEmotionEmoji ''constructor'' = JFunction ''Object''
   \<and> getEmotionEmoji ''constructor'' \<noteq> JString neutral_emoji
   \<and> ''constructor'' \<notin> set known_codes"
  by (simp add: getEmotionDisplayName_def getEmotionEmoji_def get_property_def
      emotionMap_def emojiMap_def object_prototype_def js_or_def known_codes_def)


section \<open>Properties of the progress bar\<close>

lemma bar_width_le_100: "bar_width t d = Some w \<Longrightarrow> w \<le> 100"
  by (auto simp: bar_width_def progress_def split: if_splits)

text \<open>
  The bar has no lower clamp: a negative time would give a negative width. For a time
  that is not negative and a positive \<open>maxTime\<close> the width is the clamped quotient.
\<close>

lemma bar_width_negative:
  "bar_width (-3) 3 = Some (-100) \<and> bar_width (-3) 3 \<noteq> Some (100 * spec_progress (-3) 3)"
  by (simp add: bar_width_def progress_def spec_progress_def)



section \<open>Properties of the file upload hook\<close>

lemma string_of_nat_digit: "n < 10 \<Longrightarrow> string_of_nat n = [''0123456789'' ! n]"
  by (subst string_of_nat.simps) simp

lemma string_of_nat_step:
  "10 \<le> n \<Longrightarrow> string_of_nat n = string_of_nat (n div 10) @ [''0123456789'' ! (n mod 10)]"
  by (subst string_of_nat.simps) simp

lemma toFixed1_5MB: "toFixed1 5242880 1048576 = ''5.0''"
  by (simp add: toFixed1_def string_of_nat_digit string_of_nat_step)

lemma toFixed1_10MB: "toFixed1 10485760 1048576 = ''10.0''"
  by (simp add: toFixed1_def string_of_nat_digit string_of_nat_step)

lemma validateFile_preview:
  "validateFile accept maxSize (f\<lparr>file_preview := p\<rparr>) = validateFile accept maxSize f"
  by (simp add: validateFile_def)

lemma validateFile_oversized:
  "maxSize < file_size f \<Longrightarrow> validateFile accept maxSize f \<noteq> []"
  by (simp add: validateFile_def)

lemma validateFile_size_only:
  assumes "maxSize < file_size f" and "type_accepted accept f"
  shows "validateFile accept maxSize f =
           [file_name f @ '': File too large. Maximum size is ''
              @ toFixed1 maxSize (1024 * 1024) @ ''MB.'']"
  using assms by (auto simp: validateFile_def type_accepted_def)

lemma validateFile_prefix:
  "m \<in> set (validateFile accept maxSize f) \<Longrightarrow> prefix (file_name f) m"
  by (auto simp: validateFile_def split: if_splits)

lemma validateFile_length: "length (validateFile accept maxSize f) \<le> 2"
  by (simp add: validateFile_def)

lemma fold_each_errors:
  "fst (snd (fold (addFiles_each accept maxSize) fs (v, e, u))) =
     e @ concat (map (validateFile accept maxSize) fs)"
  by (induction fs arbitrary: v e u) (simp_all add: addFiles_each_def Let_def)

lemma fold_each_keeps:
  "g \<in> set v \<Longrightarrow> g \<in> set (fst (fold (addFiles_each accept maxSize) fs (v, e, u)))"
  by (induction fs arbitrary: v e u) (simp_all add: addFiles_each_def Let_def)

lemma addFiles_each_urls:
  "addFiles_each accept maxSize x (v, e, u) = (v', e', u') \<Longrightarrow> u \<le> u'"
  by (auto simp: addFiles_each_def Let_def split: if_splits)

lemma fold_each_attaches:
  assumes "f \<in> set fs" and "validateFile accept maxSize f = []"
  shows "(prefix ''image/'' (file_type f) \<longrightarrow>
            (\<exists>p \<ge> u. f\<lparr>file_preview := Some p\<rparr>
               \<in> set (fst (fold (addFiles_each accept maxSize) fs (v, e, u)))))
       \<and> (\<not> prefix ''image/'' (file_type f) \<longrightarrow>
            f \<in> set (fst (fold (addFiles_each accept maxSize) fs (v, e, u))))"
  using assms
proof (induction fs arbitrary: v e u)
  case Nil
  then show ?case by simp
next
  case (Cons x xs)
  show ?case
  proof (cases "x = f")
    case True
    let ?g = "if prefix ''image/'' (file_type f) then f\<lparr>file_preview := Some u\<rparr> else f"
    let ?u = "if prefix ''image/'' (file_type f) then Suc u else u"
    have step: "addFiles_each accept maxSize f (v, e, u) = (v @ [?g], e, ?u)"
      using Cons.prems(2) by (simp add: addFiles_each_def)
    have "?g \<in> set (fst (fold (addFiles_each accept maxSize) xs (v @ [?g], e, ?u)))"
      by (rule fold_each_keeps) simp
    then have mem: "?g \<in> set (fst (fold (addFiles_each accept maxSize) (x # xs) (v, e, u)))"
      using True step by simp
    show ?thesis
    proof (cases "prefix ''image/'' (file_type f)")
      case True
      with mem have "f\<lparr>file_preview := Some u\<rparr>
          \<in> set (fst (fold (addFiles_each accept maxSize) (x # xs) (v, e, u)))" by simp
      with True show ?thesis by blast
    next
      case False
      with mem show ?thesis by simp
    qed
  next
    case False
    with Cons.prems have in_xs: "f \<in> set xs" by simp
    obtain v' e' u' where acc: "addFiles_each accept maxSize x (v, e, u) = (v', e', u')"
      by (cases "addFiles_each accept maxSize x (v, e, u)")
    have le: "u \<le> u'" using acc by (rule addFiles_each_urls)
    from Cons.IH [OF in_xs Cons.prems(2), of u' v' e'] acc le show ?thesis
      by (auto intro: order_trans)
  qed
qed

lemma fold_each_valid:
  assumes "\<forall>g \<in> set v. validateFile accept maxSize g = []"
    and "g \<in> set (fst (fold (addFiles_each accept maxSize) fs (v, e, u)))"
  shows "validateFile accept maxSize g = []"
  using assms
proof (induction fs arbitrary: v e u)
  case Nil
  then show ?case by simp
next
  case (Cons x xs)
  obtain v' e' u' where acc: "addFiles_each accept maxSize x (v, e, u) = (v', e', u')"
    by (cases "addFiles_each accept maxSize x (v, e, u)")
  have "\<forall>g \<in> set v'. validateFile accept maxSize g = []"
    using Cons.prems(1) acc
    by (auto simp: addFiles_each_def Let_def validateFile_preview split: if_splits)
  moreover have "g \<in> set (fst (fold (addFiles_each accept maxSize) xs (v', e', u')))"
    using Cons.prems(2) acc by simp
  ultimately show ?case by (rule Cons.IH)
qed

lemma files_addFiles:
  "files (addFiles allowMultiple accept maxSize batch s) =
     (let v = fst (fold (addFiles_each accept maxSize) batch ([], [], object_urls s))
      in if v = [] then files s else if allowMultiple then files s @ v else v)"
  by (cases "fold (addFiles_each accept maxSize) batch ([], [], object_urls s)")
     (auto simp: addFiles_def Let_def)

lemma error_messages_addFiles:
  "error_messages (addFiles allowMultiple accept maxSize batch s) =
     error_messages s @ concat (map (validateFile accept maxSize) batch)"
proof -
  have e: "concat (map (toast_error \<circ> ToastError) xs) = xs" for xs
    by (induction xs) simp_all
  obtain v er u where f: "fold (addFiles_each accept maxSize) batch ([], [], object_urls s) = (v, er, u)"
    by (cases "fold (addFiles_each accept maxSize) batch ([], [], object_urls s)")
  have "er = concat (map (validateFile accept maxSize) batch)"
    using fold_each_errors [of accept maxSize batch "[]" "[]" "object_urls s"] f by simp
  then show ?thesis
    using f by (simp add: addFiles_def Let_def error_messages_def e)
qed

text \<open>
  C7, as stated: in a batch where file A exceeds \<open>maxSize\<close> and file B passes both
  checks, exactly one error message contains A's name. \<open>validateFile\<close> reports every
  check that fails, so an oversized file of the wrong type gets two messages.
\<close>

theorem addFiles_two_errors_counterexample:
  "file_size image_too_large > 10485760
   \<and> validateFile ''audio/*'' 10485760 audio_small = []
   \<and> files (addFiles False ''audio/*'' 10485760 [image_too_large, audio_small] upload_initial)
       = [audio_small]
   \<and> naming (file_name image_too_large)
        (error_messages
          (addFiles False ''audio/*'' 10485760 [image_too_large, audio_small] upload_initial))
       = [''a.png: Invalid file type. Please upload an audio file.'',
          ''a.png: File too large. Maximum size is 10.0MB.'']"
  by (simp add: image_too_large_def audio_small_def addFiles_def addFiles_each_def
      validateFile_def upload_initial_def error_messages_def naming_def toFixed1_10MB
      string_of_nat_digit)

text \<open>
  C7, amended: in every batch that holds a file A larger than \<open>maxSize\<close> and a file B
  that passes both checks, B is accepted, with a newly created preview URL attached when
  it is an image and as it is otherwise, and A is not; the error messages of the call are
  those of \<open>validateFile\<close> for each file in order; A gets one message per failed
  check, one or two, each starting with A's name, and exactly one, the size message, when
  A's type is accepted; in the batch of A and B alone these are the only new error
  messages.
\<close>

theorem addFiles_rejects_oversized:
  assumes "A \<in> set batch" and "B \<in> set batch"
    and "maxSize < file_size A"
    and "validateFile accept maxSize B = []"
    and "\<forall>p. A\<lparr>file_preview := p\<rparr> \<notin> set (files s)"
  shows "(prefix ''image/'' (file_type B) \<longrightarrow>
            (\<exists>p \<ge> object_urls s. B\<lparr>file_preview := Some p\<rparr>
               \<in> set (files (addFiles allowMultiple accept maxSize batch s))))
    \<and> (\<not> prefix ''image/'' (file_type B) \<longrightarrow>
            B \<in> set (files (addFiles allowMultiple accept maxSize batch s)))
    \<and> (\<forall>p. A\<lparr>file_preview := p\<rparr> \<notin> set (files (addFiles allowMultiple accept maxSize batch s)))
    \<and> error_messages (addFiles allowMultiple accept maxSize batch s) =
          error_messages s @ concat (map (validateFile accept maxSize) batch)
    \<and> validateFile accept maxSize A \<noteq> []
    \<and> length (validateFile accept maxSize A) \<le> 2
    \<and> (\<forall>m \<in> set (validateFile accept maxSize A). prefix (file_name A) m)
    \<and> (type_accepted accept A \<longrightarrow>
          validateFile accept maxSize A =
            [file_name A @ '': File too large. Maximum size is ''
               @ toFixed1 maxSize (1024 * 1024) @ ''MB.''])
    \<and> (batch = [A, B] \<longrightarrow>
          error_messages (addFiles allowMultiple accept maxSize batch s) =
            error_messages s @ validateFile accept maxSize A)"
proof -
  let ?v = "fst (fold (addFiles_each accept maxSize) batch ([], [], object_urls s))"
  let ?s' = "addFiles allowMultiple accept maxSize batch s"
  note att = fold_each_attaches [OF assms(2) assms(4), of "object_urls s" "[]" "[]"]
  have "?v \<noteq> []" using att by (cases "prefix ''image/'' (file_type B)") auto
  then have fs: "files ?s' = (if allowMultiple then files s @ ?v else ?v)"
    by (simp add: files_addFiles Let_def)
  have img: "prefix ''image/'' (file_type B) \<longrightarrow>
      (\<exists>p \<ge> object_urls s. B\<lparr>file_preview := Some p\<rparr> \<in> set (files ?s'))"
    using att fs by auto
  have aud: "\<not> prefix ''image/'' (file_type B) \<longrightarrow> B \<in> set (files ?s')"
    using att fs by auto
  have bad: "validateFile accept maxSize (A\<lparr>file_preview := p\<rparr>) \<noteq> []" for p
    using assms(3) by (simp add: validateFile_preview validateFile_oversized)
  have notv: "A\<lparr>file_preview := p\<rparr> \<notin> set ?v" for p
  proof
    assume "A\<lparr>file_preview := p\<rparr> \<in> set ?v"
    then have "validateFile accept maxSize (A\<lparr>file_preview := p\<rparr>) = []"
      by (rule fold_each_valid [rotated]) simp
    with bad show False by blast
  qed
  have notA: "\<forall>p. A\<lparr>file_preview := p\<rparr> \<notin> set (files ?s')"
    using notv assms(5) fs by auto
  have two: "batch = [A, B] \<longrightarrow>
      error_messages ?s' = error_messages s @ validateFile accept maxSize A"
    using assms(4) by (simp add: error_messages_addFiles)
  show ?thesis
    using img aud notA two error_messages_addFiles validateFile_oversized [OF assms(3)]
      validateFile_length validateFile_prefix validateFile_size_only [OF assms(3)]
    by blast
qed

theorem addFiles_rejects_oversized_witness:
  "image_too_large \<in> set [image_too_large, image_small]
   \<and> image_small \<in> set [image_too_large, image_small]
   \<and> 5242880 < file_size image_too_large
   \<and> validateFile ''image/*'' 5242880 image_small = []
   \<and> type_accepted ''image/*'' image_too_large
   \<and> prefix ''image/'' (file_type image_small)
   \<and> files (addFiles False ''image/*'' 5242880 [image_too_large, image_small] upload_initial)
       = [image_small\<lparr>file_preview := Some 0\<rparr>]
   \<and> error_messages
        (addFiles False ''image/*'' 5242880 [image_too_large, image_small] upload_initial)
       = [''a.png: File too large. Maximum size is 5.0MB.'']
   \<and> audio_too_large \<in> set [audio_too_large, audio_small]
   \<and> audio_small \<in> set [audio_too_large, audio_small]
   \<and> 10485760 < file_size audio_too_large
   \<and> validateFile ''audio/*'' 10485760 audio_small = []
   \<and> files (addFiles True ''audio/*'' 10485760 [audio_too_large, audio_small] upload_initial)
       = [audio_small]
   \<and> error_messages
        (addFiles True ''audio/*'' 10485760 [audio_too_large, audio_small] upload_initial)
       = [''big.wav: File too large. Maximum size is 10.0MB.'']"
  using addFiles_rejects_oversized [of image_too_large "[image_too_large, image_small]"
      image_small 5242880 "''image/*''" upload_initial False]
    addFiles_rejects_oversized [of audio_too_large "[audio_too_large, audio_small]"
      audio_small 10485760 "''audio/*''" upload_initial True]
  by (simp add: image_too_large_def image_small_def audio_too_large_def audio_small_def
      addFiles_def addFiles_each_def validateFile_def upload_initial_def error_messages_def
      type_accepted_def toFixed1_10MB toFixed1_5MB string_of_nat_digit)


section \<open>Properties of the audio recorder hook\<close>

subsection \<open>Stale closures and the elapsed time\<close>

text \<open>
  A \<open>stopRecording\<close> whose closure holds \<open>isRecording = false\<close> returns at its
  first line, so a timer callback with such a closure only updates the time.
\<close>

lemma stopRecording_stale: "stopRecording False s = s"
  by (simp add: stopRecording_def)

lemma timerCallback_stale:
  "timerCallback False s =
     s\<lparr>recordingTime := (if recordingTime s + 1 / 10 \<ge> 3 then 3 else recordingTime s + 1 / 10)\<rparr>"
  by (simp add: timerCallback_def stopRecording_stale Let_def)

lemma recordingTime_stopRecording: "recordingTime (stopRecording c s) = recordingTime s"
  by (simp add: stopRecording_def clearInterval_def stop_if_recording_def Let_def
      split: option.splits)

lemma recordingTime_timerCallback:
  "recordingTime (timerCallback c s) =
     (if recordingTime s + 1 / 10 < 3 then recordingTime s + 1 / 10 else 3)"
  by (simp add: timerCallback_def Let_def)

lemma recordingTime_startRecording:
  "recordingTime (startRecording c res s) = recordingTime s \<or> recordingTime (startRecording c res s) = 0"
  by (cases res) (simp_all add: startRecording_def initializeRecorder_def start_current_def Let_def
      split: option.splits)

lemma recordingTime_resetRecording: "recordingTime (resetRecording c s) = 0"
  by (simp add: resetRecording_def on_player_def Let_def split: option.splits)

lemma recordingTime_others:
  "recordingTime (playAudio u p s) = recordingTime s"
  "recordingTime (ondataavailable d s) = recordingTime s"
  "recordingTime (deliver_stop a s) = recordingTime s"
  "recordingTime (player_ended s) = recordingTime s"
  "recordingTime (player_paused s) = recordingTime s"
  "recordingTime (handlers_effect s) = recordingTime s"
  "recordingTime (handlers_cleanup s) = recordingTime s"
  "recordingTime (teardown u' s) = recordingTime s"
  "recordingTime (mount_player s) = recordingTime s"
  "recordingTime (unmount_player s) = recordingTime s"
  by (simp_all add: playAudio_def on_player_def ondataavailable_def deliver_stop_def onstop_def
      player_ended_def player_paused_def handleEnded_def handlePause_def handlers_effect_def
      handlers_cleanup_def teardown_def clearInterval_def stop_if_recording_def
      mount_player_def unmount_player_def Let_def split: option.splits)

lemma recordingTime_fire:
  "recordingTime (fire i s) = recordingTime s \<or>
   recordingTime (fire i s) = (if recordingTime s + 1 / 10 < 3 then recordingTime s + 1 / 10 else 3)"
  by (simp add: fire_def recordingTime_timerCallback split: option.splits)

lemma reachable_time_bounds: "reachable s \<Longrightarrow> 0 \<le> recordingTime s \<and> recordingTime s \<le> 3"
proof (induction rule: reachable.induct)
  case r_init
  show ?case by (simp add: hook_initial_def)
next
  case (r_start s c res)
  then show ?case using recordingTime_startRecording [of c res s] by auto
next
  case (r_tick s ident)
  then show ?case using recordingTime_fire [of ident s] by (auto split: if_splits)
qed (simp_all add: recordingTime_stopRecording recordingTime_resetRecording recordingTime_others)

lemma fire_funpow_reachable: "reachable s \<Longrightarrow> reachable ((fire i ^^ n) s)"
  by (induction n) (simp_all add: r_tick)

text \<open>
  Every timer is created by \<open>startRecording\<close> behind its guard
  \<open>if (isRecording) return\<close>, so in every state the hook can be in, the closures of
  all running timers hold \<open>isRecording = false\<close>, and no tick stops a recording.
\<close>

lemma stale_filter: "list_all P xs \<Longrightarrow> list_all P (filter Q xs)"
  by (induction xs) simp_all

lemma stale_stopRecording: "timers_stale s \<Longrightarrow> timers_stale (stopRecording c s)"
  by (auto simp: timers_stale_def stopRecording_def clearInterval_def stop_if_recording_def
      stale_filter Let_def split: option.splits)

lemma stale_startRecording: "timers_stale s \<Longrightarrow> timers_stale (startRecording c res s)"
  by (cases res) (auto simp: timers_stale_def startRecording_def initializeRecorder_def
      start_current_def Let_def split: option.splits)

lemma stale_fire: "timers_stale s \<Longrightarrow> timers_stale (fire i s)"
  using stale_stopRecording [of s]
  by (auto simp: timers_stale_def fire_def timerCallback_def Let_def split: option.splits)

lemma stale_resetRecording: "timers_stale s \<Longrightarrow> timers_stale (resetRecording c s)"
  using stale_stopRecording [of s c]
  by (auto simp: timers_stale_def resetRecording_def on_player_def Let_def split: option.splits)

lemma stale_others:
  "timers_stale s \<Longrightarrow> timers_stale (playAudio u p s)"
  "timers_stale s \<Longrightarrow> timers_stale (ondataavailable d s)"
  "timers_stale s \<Longrightarrow> timers_stale (deliver_stop a s)"
  "timers_stale s \<Longrightarrow> timers_stale (player_ended s)"
  "timers_stale s \<Longrightarrow> timers_stale (player_paused s)"
  "timers_stale s \<Longrightarrow> timers_stale (handlers_effect s)"
  "timers_stale s \<Longrightarrow> timers_stale (handlers_cleanup s)"
  "timers_stale s \<Longrightarrow> timers_stale (teardown u' s)"
  "timers_stale s \<Longrightarrow> timers_stale (mount_player s)"
  "timers_stale s \<Longrightarrow> timers_stale (unmount_player s)"
  by (auto simp: timers_stale_def playAudio_def on_player_def ondataavailable_def
      deliver_stop_def onstop_def player_ended_def player_paused_def handleEnded_def
      handlePause_def handlers_effect_def handlers_cleanup_def teardown_def clearInterval_def
      stop_if_recording_def mount_player_def unmount_player_def stale_filter Let_def
      split: option.splits)

lemma reachable_timers_stale: "reachable s \<Longrightarrow> timers_stale s"
  by (induction rule: reachable.induct)
     (simp_all add: stale_stopRecording stale_startRecording stale_fire
        stale_resetRecording stale_others,
      simp add: timers_stale_def hook_initial_def)

lemma tick_never_stops:
  assumes "reachable s"
  shows "isRecording (fire i s) = isRecording s \<and> intervals (fire i s) = intervals s
         \<and> recorders (fire i s) = recorders s"
proof (cases "map_of (intervals s) i")
  case None
  then show ?thesis by (simp add: fire_def)
next
  case (Some c)
  then have "(i, c) \<in> set (intervals s)" by (rule map_of_SomeD)
  with reachable_timers_stale [OF assms] have "\<not> c"
    by (auto simp: timers_stale_def list_all_iff)
  with Some show ?thesis by (simp add: fire_def timerCallback_stale)
qed

subsection \<open>The example runs\<close>

lemma first_recording_eq:
  "first_recording k =
     hook_initial\<lparr>isRecording := True, mediaRecorderRef := Some 0, timerRef := Some 1,
        recorders := [0 \<mapsto> \<lparr>mr_state = RecRecording, mr_tracks = replicate k True,
                               mr_stop_queued = False\<rparr>],
        next_recorder := 1, intervals := [(1, False)], next_interval := 2,
        toasts := [ToastSuccess ''Recording started!''], getUserMedia_calls := 1\<rparr>"
  by (simp add: first_recording_def startRecording_def initializeRecorder_def start_current_def
      mr_start_def hook_initial_def Let_def)

lemma fire_stale:
  "intervals s = [(i, False)] \<Longrightarrow>
     fire i s = s\<lparr>recordingTime := (if recordingTime s + 1 / 10 \<ge> 3 then 3 else recordingTime s + 1 / 10)\<rparr>"
  by (simp add: fire_def timerCallback_stale)

lemma tick_arith:
  "(if min (real n / 10) 3 + 1 / 10 \<ge> 3 then 3 else min (real n / 10) 3 + 1 / 10)
     = min (real (Suc n) / 10) 3"
  by (simp add: min_def field_simps)

lemma ticks_first_recording:
  "(fire 1 ^^ n) (first_recording k) = (first_recording k)\<lparr>recordingTime := min (real n / 10) 3\<rparr>"
proof (induction n)
  case 0
  show ?case by (simp add: first_recording_eq hook_initial_def)
next
  case (Suc n)
  have i: "intervals ((first_recording k)\<lparr>recordingTime := min (real n / 10) 3\<rparr>) = [(1, False)]"
    by (simp add: first_recording_eq)
  show ?case
    by (simp only: funpow.simps o_apply Suc fire_stale [OF i])
       (simp add: tick_arith del: of_nat_Suc)
qed

lemma reachable_first_ticks: "reachable ((fire 1 ^^ n) (first_recording k))"
  unfolding first_recording_def by (intro fire_funpow_reachable r_start r_init)

lemma short_recording_eq:
  "short_recording = (first_recording 1)\<lparr>recordingTime := 12 / 10\<rparr>"
  unfolding short_recording_def ticks_first_recording by simp

lemma reachable_short_recording: "reachable short_recording"
  unfolding short_recording_def by (rule reachable_first_ticks)

lemma finished_recording_fields:
  "audioUrl finished_recording = Some 0"
  "audioPlayerRef finished_recording = Some \<lparr>paused = True, currentTime = 0, listening = True\<rparr>"
  "isPlaying finished_recording = False"
  "session_state finished_recording = Stopped"
  by (simp_all add: finished_recording_def short_recording_eq first_recording_eq hook_initial_def
      handlers_effect_def mount_player_def deliver_stop_def onstop_def stopRecording_def
      clearInterval_def stop_if_recording_def mr_stop_def session_state_def Let_def)

lemma hook_initial_no_sample:
  "audioUrl hook_initial = None" "isPlaying hook_initial = False"
  by (simp_all add: hook_initial_def)

lemma auto_stop_at_3s:
  "recordingTime ((fire 1 ^^ 30) (first_recording 1)) = 3
   \<and> isRecording ((fire 1 ^^ 30) (first_recording 1))
   \<and> intervals ((fire 1 ^^ 30) (first_recording 1)) = [(1, False)]"
  unfolding ticks_first_recording by (simp add: first_recording_eq hook_initial_def)

subsection \<open>Auto-stop at the deadline\<close>

text \<open>
  C1. The claim: a recording that is started and not stopped by hand is stopped once the
  elapsed time reaches three seconds (recording halted, timer cancelled), exactly once,
  with the elapsed time stored as exactly 3. On the code the elapsed time is stored as
  exactly 3, but the recording is never stopped: after any number \<open>n\<close> of ticks of its
  timer the first recording of a fresh hook is still recording, its timer still runs,
  the recorder is still in state \<open>'recording'\<close> and no sample exists. The
  \<open>stopRecording\<close> that the timer callback calls belongs to the render in which
  \<open>isRecording\<close> was false, and returns at its guard.
\<close>

theorem auto_stop_never_stops:
  "let s = (fire 1 ^^ n) (startRecording False (MicStream k) hook_initial) in
     isRecording s \<and> session_state s = Recording
     \<and> recordingTime s = min (real n / 10) 3
     \<and> intervals s = [(1, False)] \<and> timerRef s = Some 1
     \<and> mediaRecorderRef s = Some 0
     \<and> recorders s 0 = Some \<lparr>mr_state = RecRecording, mr_tracks = replicate k True,
                               mr_stop_queued = False\<rparr>
     \<and> audioBlob s = None
     \<and> toasts s = [ToastSuccess ''Recording started!'']"
  unfolding first_recording_def [symmetric] ticks_first_recording Let_def
  by (simp add: first_recording_eq session_state_def hook_initial_def)

subsection \<open>Elapsed time stays within the deadline\<close>

text \<open>
  C4. In every state the hook can be in, the elapsed time lies between 0 and 3; a tick
  stores the incremented time when that is below 3 and exactly 3 otherwise, so it never
  stores more than 3.
\<close>

theorem elapsed_never_exceeds_deadline:
  assumes "reachable s"
  shows "0 \<le> recordingTime s \<and> recordingTime s \<le> 3
         \<and> recordingTime (timerCallback c s) =
             (if recordingTime s + 1 / 10 < 3 then recordingTime s + 1 / 10 else 3)
         \<and> recordingTime (timerCallback c s) \<le> 3"
  using reachable_time_bounds [OF assms] by (simp add: recordingTime_timerCallback)

theorem elapsed_never_exceeds_deadline_witness:
  "reachable ((fire 1 ^^ 29) (first_recording 1))
   \<and> recordingTime ((fire 1 ^^ 29) (first_recording 1)) = 29 / 10
   \<and> recordingTime (timerCallback False ((fire 1 ^^ 29) (first_recording 1))) = 3
   \<and> reachable ((fire 1 ^^ 7) (first_recording 1))
   \<and> recordingTime (timerCallback False ((fire 1 ^^ 7) (first_recording 1))) = 8 / 10"
  using elapsed_never_exceeds_deadline [OF reachable_first_ticks [of 29 1], of False]
    elapsed_never_exceeds_deadline [OF reachable_first_ticks [of 7 1], of False]
    reachable_first_ticks [of 29 1] reachable_first_ticks [of 7 1]
  unfolding ticks_first_recording by simp

subsection \<open>Manual stop\<close>

lemma fold_ondataavailable:
  "fold ondataavailable ds s = s\<lparr>chunksRef := chunksRef s @ filter (\<lambda>d. blob_size d > 0) ds\<rparr>"
  by (induction ds arbitrary: s) (simp_all add: ondataavailable_def)

text \<open>
  C2. \<open>stopRecording\<close> of the current render is called while recording (the
  recorder of the ref is in state \<open>'recording'\<close>, no error is recorded) at elapsed
  time \<open>t\<close>; the recorder then delivers its last chunks \<open>ds\<close> and its \<open>stop\<close>
  event. The session is then stopped with the elapsed time still \<open>t\<close>, the sample is
  the blob of all buffered chunks and the object URL is set, the buffer is empty, every
  track of the recorder's stream is stopped, and the timer of the ref is cancelled. (This
  holds for every \<open>t\<close>, in particular below 3.)
\<close>

theorem manual_stop_finalizes:
  assumes "isRecording s" and "error s = None"
    and "mediaRecorderRef s = Some a" and "recorders s a = Some r"
    and "mr_state r = RecRecording"
  shows "let s' = deliver_stop a (fold ondataavailable ds (stopRecording (isRecording s) s)) in
           session_state s' = Stopped \<and> \<not> isRecording s'
           \<and> recordingTime s' = recordingTime s
           \<and> audioBlob s' =
               Some (new_blob (chunksRef s @ filter (\<lambda>d. blob_size d > 0) ds) ''audio/webm'')
           \<and> audioUrl s' = Some (next_url s)
           \<and> chunksRef s' = []
           \<and> recorders s' a =
               Some \<lparr>mr_state = RecInactive, mr_tracks = replicate (length (mr_tracks r)) False,
                     mr_stop_queued = False\<rparr>
           \<and> intervals s' = filter (\<lambda>e. Some (fst e) \<noteq> timerRef s) (intervals s)"
proof -
  have m: "map (\<lambda>live. False) xs = replicate (length xs) False" for xs :: "bool list"
    by (induction xs) simp_all
  have f: "filter (\<lambda>e. fst e \<noteq> i) xs = filter (\<lambda>e. Some (fst e) \<noteq> Some i) xs"
    for i :: nat and xs :: "(nat \<times> bool) list"
    by simp
  show ?thesis
    using assms
    by (cases "timerRef s")
       (simp_all add: stopRecording_def clearInterval_def stop_if_recording_def mr_stop_def
          fold_ondataavailable deliver_stop_def onstop_def session_state_def Let_def m)
qed

theorem manual_stop_finalizes_witness:
  "isRecording short_recording \<and> error short_recording = None
   \<and> mediaRecorderRef short_recording = Some 0
   \<and> recorders short_recording 0 =
       Some \<lparr>mr_state = RecRecording, mr_tracks = [True], mr_stop_queued = False\<rparr>
   \<and> recordingTime short_recording = 12 / 10
   \<and> session_state (deliver_stop 0 (fold ondataavailable
        [\<lparr>blob_bytes = [26, 69], blob_type = ''audio/webm''\<rparr>]
        (stopRecording (isRecording short_recording) short_recording))) = Stopped
   \<and> recordingTime (deliver_stop 0 (fold ondataavailable
        [\<lparr>blob_bytes = [26, 69], blob_type = ''audio/webm''\<rparr>]
        (stopRecording (isRecording short_recording) short_recording))) = 12 / 10
   \<and> audioBlob (deliver_stop 0 (fold ondataavailable
        [\<lparr>blob_bytes = [26, 69], blob_type = ''audio/webm''\<rparr>]
        (stopRecording (isRecording short_recording) short_recording)))
       = Some \<lparr>blob_bytes = [26, 69], blob_type = ''audio/webm''\<rparr>
   \<and> intervals (deliver_stop 0 (fold ondataavailable
        [\<lparr>blob_bytes = [26, 69], blob_type = ''audio/webm''\<rparr>]
        (stopRecording (isRecording short_recording) short_recording))) = []"
proof -
  have h: "isRecording short_recording" "error short_recording = None"
    "mediaRecorderRef short_recording = Some 0"
    "recorders short_recording 0 =
       Some \<lparr>mr_state = RecRecording, mr_tracks = [True], mr_stop_queued = False\<rparr>"
    "recordingTime short_recording = 12 / 10"
    "chunksRef short_recording = []" "timerRef short_recording = Some 1"
    "intervals short_recording = [(1, False)]"
    by (simp_all add: short_recording_eq first_recording_eq hook_initial_def)
  show ?thesis
    using h manual_stop_finalizes [OF h(1) h(2) h(3) h(4), of
        "[\<lparr>blob_bytes = [26, 69], blob_type = ''audio/webm''\<rparr>]"]
    by (auto simp: Let_def new_blob_def blob_size_def)
qed

subsection \<open>Reset\<close>

lemma present_stopRecording: "recorder_present s \<Longrightarrow> recorder_present (stopRecording c s)"
  by (simp add: recorder_present_def stopRecording_def clearInterval_def stop_if_recording_def
      Let_def split: option.splits)

lemma present_startRecording: "recorder_present s \<Longrightarrow> recorder_present (startRecording c res s)"
  by (cases res) (simp_all add: recorder_present_def startRecording_def initializeRecorder_def
      start_current_def Let_def split: option.splits)

lemma present_timerCallback: "recorder_present s \<Longrightarrow> recorder_present (timerCallback c s)"
  using present_stopRecording [of s c]
  by (simp add: recorder_present_def timerCallback_def Let_def)

lemma present_fire: "recorder_present s \<Longrightarrow> recorder_present (fire i s)"
  by (simp add: fire_def present_timerCallback split: option.splits)

lemma present_resetRecording: "recorder_present s \<Longrightarrow> recorder_present (resetRecording c s)"
  using present_stopRecording [of s c]
  by (auto simp: recorder_present_def resetRecording_def on_player_def Let_def split: option.splits)

lemma present_others:
  "recorder_present s \<Longrightarrow> recorder_present (playAudio u p s)"
  "recorder_present s \<Longrightarrow> recorder_present (ondataavailable d s)"
  "recorder_present s \<Longrightarrow> recorder_present (deliver_stop a s)"
  "recorder_present s \<Longrightarrow> recorder_present (player_ended s)"
  "recorder_present s \<Longrightarrow> recorder_present (player_paused s)"
  "recorder_present s \<Longrightarrow> recorder_present (handlers_effect s)"
  "recorder_present s \<Longrightarrow> recorder_present (handlers_cleanup s)"
  "recorder_present s \<Longrightarrow> recorder_present (teardown u' s)"
  "recorder_present s \<Longrightarrow> recorder_present (mount_player s)"
  "recorder_present s \<Longrightarrow> recorder_present (unmount_player s)"
  by (auto simp: recorder_present_def playAudio_def on_player_def ondataavailable_def
      deliver_stop_def onstop_def player_ended_def player_paused_def handleEnded_def
      handlePause_def handlers_effect_def handlers_cleanup_def teardown_def clearInterval_def
      stop_if_recording_def mount_player_def unmount_player_def Let_def split: option.splits)

lemma reachable_recorder_present: "reachable s \<Longrightarrow> recorder_present s"
  by (induction rule: reachable.induct)
     (simp_all add: present_stopRecording present_startRecording present_fire
        present_resetRecording present_others,
      simp add: recorder_present_def hook_initial_def)

lemma stopRecording_fresh:
  "isRecording s \<Longrightarrow> mediaRecorderRef s \<noteq> None \<Longrightarrow>
     \<not> isRecording (stopRecording (isRecording s) s)
     \<and> error (stopRecording (isRecording s) s) = error s
     \<and> audioPlayerRef (stopRecording (isRecording s) s) = audioPlayerRef s"
  by (simp add: stopRecording_def clearInterval_def stop_if_recording_def Let_def
      split: option.splits)

text \<open>
  When \<open>resetRecording\<close> of the current render returns, the state is idle: not
  recording, elapsed time 0, no sample, no error, not playing, and the audio element of
  the ref, if there is one, paused and rewound to position 0.
\<close>

lemma resetRecording_returns_idle:
  assumes "reachable s"
  shows "let s' = resetRecording (isRecording s) s in
           session_state s' = Idle \<and> \<not> isRecording s' \<and> recordingTime s' = 0
           \<and> audioBlob s' = None \<and> audioUrl s' = None \<and> error s' = None \<and> \<not> isPlaying s'
           \<and> audioPlayerRef s' =
               map_option (\<lambda>p. p\<lparr>paused := True, currentTime := 0\<rparr>) (audioPlayerRef s)"
proof (cases "isRecording s")
  case True
  with reachable_recorder_present [OF assms] have "mediaRecorderRef s \<noteq> None"
    by (simp add: recorder_present_def)
  from stopRecording_fresh [OF True this] True show ?thesis
    by (simp add: resetRecording_def on_player_def session_state_def Let_def split: option.splits)
next
  case False
  then show ?thesis
    by (simp add: resetRecording_def on_player_def session_state_def Let_def split: option.splits)
qed

text \<open>
  C3. The claim: from every session state, \<open>resetRecording\<close> gives the idle state
  with elapsed time 0 and no sample. On the code this fails from the recording state.
  The reset calls \<open>stopRecording\<close>, which stops the recorder; the recorder's
  \<open>stop\<close> event is then still queued, and the chunks recorded so far are still in
  the buffer, which the reset does not clear. When the event is delivered, \<open>onstop\<close>
  stores a sample built from those chunks and its URL again: the session ends stopped
  with a sample, not idle without one.
\<close>

theorem reset_while_recording_restores_sample:
  assumes "isRecording s" and "mediaRecorderRef s = Some a"
    and "recorders s a = Some r" and "mr_state r = RecRecording"
  shows "let s1 = resetRecording (isRecording s) s; s2 = deliver_stop a s1 in
           session_state s1 = Idle \<and> audioBlob s1 = None
           \<and> recorders s1 a = Some (mr_stop r) \<and> chunksRef s1 = chunksRef s
           \<and> session_state s2 = Stopped \<and> \<not> isRecording s2 \<and> recordingTime s2 = 0
           \<and> audioBlob s2 = Some (new_blob (chunksRef s) ''audio/webm'')
           \<and> audioUrl s2 = Some (next_url s)"
  using assms
  by (cases "timerRef s"; cases "audioPlayerRef s")
     (simp_all add: resetRecording_def on_player_def stopRecording_def clearInterval_def
        stop_if_recording_def mr_stop_def deliver_stop_def onstop_def session_state_def Let_def)

lemma recording_with_chunk_fields:
  "isRecording recording_with_chunk" "mediaRecorderRef recording_with_chunk = Some 0"
  "recorders recording_with_chunk 0 =
     Some \<lparr>mr_state = RecRecording, mr_tracks = [True], mr_stop_queued = False\<rparr>"
  "chunksRef recording_with_chunk = [\<lparr>blob_bytes = [1, 2, 3], blob_type = ''audio/webm''\<rparr>]"
  "session_state recording_with_chunk = Recording"
  by (simp_all add: recording_with_chunk_def short_recording_eq first_recording_eq
      hook_initial_def ondataavailable_def blob_size_def session_state_def)

lemma reachable_recording_with_chunk: "reachable recording_with_chunk"
  unfolding recording_with_chunk_def by (intro r_data reachable_short_recording)

theorem reset_while_recording_restores_sample_witness:
  "reachable recording_with_chunk \<and> session_state recording_with_chunk = Recording
   \<and> session_state (resetRecording (isRecording recording_with_chunk) recording_with_chunk) = Idle
   \<and> session_state (deliver_stop 0
        (resetRecording (isRecording recording_with_chunk) recording_with_chunk)) = Stopped
   \<and> audioBlob (deliver_stop 0
        (resetRecording (isRecording recording_with_chunk) recording_with_chunk))
       = Some \<lparr>blob_bytes = [1, 2, 3], blob_type = ''audio/webm''\<rparr>"
  using reachable_recording_with_chunk recording_with_chunk_fields
    reset_while_recording_restores_sample [OF recording_with_chunk_fields(1)
      recording_with_chunk_fields(2) recording_with_chunk_fields(3)]
  by (simp add: Let_def new_blob_def)

subsection \<open>Start while recording, and a failed acquisition\<close>

text \<open>
  C5. \<open>startRecording\<close> of the current render, called while recording, changes
  nothing: the whole state is the same, so the elapsed time, the timers, the buffered
  chunks, the sample and the number of \<open>getUserMedia\<close> calls are.
\<close>

theorem startRecording_while_recording:
  "isRecording s \<Longrightarrow> startRecording (isRecording s) res s = s"
  by (simp add: startRecording_def)

theorem startRecording_while_recording_witness:
  "isRecording (first_recording 1)
   \<and> startRecording (isRecording (first_recording 1)) (MicStream 1) (first_recording 1)
       = first_recording 1
   \<and> getUserMedia_calls
        (startRecording (isRecording (first_recording 1)) (MicStream 1) (first_recording 1)) = 1"
proof -
  have r: "isRecording (first_recording 1)" by (simp add: first_recording_eq)
  have c: "getUserMedia_calls (first_recording 1) = 1" by (simp add: first_recording_eq)
  show ?thesis
    using r c startRecording_while_recording [OF r, of "MicStream 1"] by simp
qed

text \<open>
  The guard reads the closure only. A second call made while the first acquisition is
  still pending passes it as well: both bodies run, two recorders and two timers are
  created, and the ref keeps the second timer only.
\<close>

lemma second_start_while_pending:
  "intervals (startRecording False (MicStream 1) (first_recording 1)) = [(1, False), (2, False)]
   \<and> timerRef (startRecording False (MicStream 1) (first_recording 1)) = Some 2
   \<and> getUserMedia_calls (startRecording False (MicStream 1) (first_recording 1)) = 2"
  by (simp add: first_recording_eq hook_initial_def startRecording_def initializeRecorder_def
      start_current_def Let_def)

text \<open>
  C8. When the acquisition fails, \<open>startRecording\<close> called while not recording
  records the error message, shows the toast and has called \<open>getUserMedia\<close> once;
  nothing else changes: the session is in the error state, not recording, no timer or
  recorder is created, and the elapsed time and the sample are as before.
\<close>

theorem acquisition_failure:
  assumes "\<not> isRecording s"
  shows "let s' = startRecording (isRecording s) (MicFailure e) s in
           s' = s\<lparr>error := Some ''Microphone access denied or not available'',
                  toasts := toasts s @ [ToastError ''Please allow microphone access to record audio''],
                  getUserMedia_calls := Suc (getUserMedia_calls s)\<rparr>
           \<and> error s' \<noteq> None \<and> session_state s' = Error \<and> \<not> isRecording s'
           \<and> recordingTime s' = recordingTime s \<and> audioBlob s' = audioBlob s
           \<and> audioUrl s' = audioUrl s \<and> intervals s' = intervals s
           \<and> recorders s' = recorders s \<and> mediaRecorderRef s' = mediaRecorderRef s
           \<and> getUserMedia_calls s' = Suc (getUserMedia_calls s)"
  using assms
  by (simp add: startRecording_def initializeRecorder_def session_state_def Let_def)

theorem acquisition_failure_witness:
  "\<not> isRecording hook_initial
   \<and> session_state (startRecording (isRecording hook_initial) (MicFailure ''NotAllowedError'') hook_initial) = Error
   \<and> error (startRecording (isRecording hook_initial) (MicFailure ''NotAllowedError'') hook_initial)
       = Some ''Microphone access denied or not available''
   \<and> getUserMedia_calls (startRecording (isRecording hook_initial) (MicFailure ''NotAllowedError'') hook_initial) = 1
   \<and> intervals (startRecording (isRecording hook_initial) (MicFailure ''NotAllowedError'') hook_initial) = []"
proof -
  have r: "\<not> isRecording hook_initial" by (simp add: hook_initial_def)
  have g: "getUserMedia_calls hook_initial = 0" "intervals hook_initial = []"
    by (simp_all add: hook_initial_def)
  show ?thesis
    using r g acquisition_failure [OF r, of "''NotAllowedError''"]
    by (auto simp: Let_def)
qed

subsection \<open>Playback\<close>

text \<open>
  With a sample present and the hook's handlers registered on the audio element of the
  ref, \<open>playAudio\<close> of the current render toggles \<open>isPlaying\<close>, and an
  \<open>ended\<close> event after it leaves \<open>isPlaying\<close> false; with no sample
  (\<open>audioUrl\<close> null) \<open>playAudio\<close> leaves the whole state unchanged.
\<close>

lemma playAudio_listening:
  "(audioUrl s \<noteq> None \<and> audioPlayerRef s = Some p \<and> listening p \<longrightarrow>
      isPlaying (playAudio (audioUrl s) (isPlaying s) s) = (\<not> isPlaying s)
      \<and> isPlaying (player_ended (playAudio (audioUrl s) (isPlaying s) s)) = False)
   \<and> (audioUrl s = None \<longrightarrow> playAudio (audioUrl s) (isPlaying s) s = s)"
  by (simp add: playAudio_def on_player_def player_ended_def handleEnded_def Let_def)

lemma reachable_finished_recording: "reachable finished_recording"
proof -
  have "isRecording short_recording"
    by (simp add: short_recording_eq first_recording_eq)
  then have "stopRecording True short_recording =
      stopRecording (isRecording short_recording) short_recording" by simp
  then show ?thesis
    unfolding finished_recording_def
    by (simp only:) (intro r_effect r_mount r_stopped r_stop reachable_short_recording)
qed

lemma reachable_remounted_player: "reachable remounted_player"
  unfolding remounted_player_def by (intro r_mount r_unmount reachable_finished_recording)

text \<open>
  C6. The claim: with a finalized sample present, \<open>playAudio\<close> followed by an
  \<open>ended\<close> event of the player leaves \<open>isPlaying\<close> false without a second
  call. On the code this fails once the page has replaced its audio element while the
  sample stays: the handlers are registered by an effect on \<open>[audioUrl]\<close>, which
  does not run again, so the new element has none. \<open>playAudio\<close> sets
  \<open>isPlaying\<close> and the \<open>ended\<close> event of the new element reaches no handler:
  \<open>isPlaying\<close> stays true.
\<close>

theorem ended_after_remount_keeps_playing:
  "reachable remounted_player \<and> session_state remounted_player = Stopped
   \<and> audioUrl remounted_player = Some 0
   \<and> audioPlayerRef remounted_player =
       Some \<lparr>paused = True, currentTime = 0, listening = False\<rparr>
   \<and> isPlaying remounted_player = False
   \<and> isPlaying (playAudio (audioUrl remounted_player) (isPlaying remounted_player)
        remounted_player) = True
   \<and> isPlaying (player_ended (playAudio (audioUrl remounted_player)
        (isPlaying remounted_player) remounted_player)) = True"
proof -
  have f: "audioUrl remounted_player = Some 0"
    "audioPlayerRef remounted_player = Some \<lparr>paused = True, currentTime = 0, listening = False\<rparr>"
    "isPlaying remounted_player = False"
    "session_state remounted_player = Stopped"
    using finished_recording_fields
    by (simp_all add: remounted_player_def mount_player_def unmount_player_def session_state_def
        split: if_splits)
  show ?thesis
    using reachable_remounted_player
    by (simp add: f playAudio_def on_player_def player_ended_def handleEnded_def Let_def)
qed

subsection \<open>The progress bar on the elapsed time of the hook\<close>



end
